theory Spec2Isabelle
  imports Main
begin

section \<open>Nephos: the upload dispatcher and the single-instance guard\<close>

text \<open>
  A shallow embedding of \<^verbatim>\<open>src/nephos/uploader/uploader.py\<close> (the class
  \<^verbatim>\<open>Uploader\<close>: \<^verbatim>\<open>begin_uploads\<close>, \<^verbatim>\<open>_upload\<close>, \<^verbatim>\<open>_remove\<close>, and the module
  level constants) and of the module level code of \<^verbatim>\<open>src/nephos/nephos.py\<close>.
  Exceptions are values, the Task Store and the filesystem are explicit state, and the
  worker threads of the pool are run one after the other in the order of submission.
\<close>

subsection \<open>Values, exceptions and log records\<close>

datatype exn =
    DBException string
  | TypeError string
  | ValueError string
  | ZeroDivisionError string
  | NotImplementedError string
  | NameError string
  | FileNotFoundError string
  | NotADirectoryError string
  | SingleInstanceException string
  | SystemExit int
  | OtherError string

fun is_DBException :: "exn \<Rightarrow> bool" where
  "is_DBException (DBException m) = True"
| "is_DBException e = False"

text \<open>The Python values that travel through \<^verbatim>\<open>begin_uploads\<close>: the client object, a
  path (a \<^verbatim>\<open>str\<close>) and a share list.\<close>

datatype 'c pyval = PClient 'c | PStr string | PList "string list"

datatype level = DEBUG | INFO | WARNING | ERROR

datatype log_msg = Text string | Exc exn

type_synonym log_record = "level \<times> log_msg"

subsection \<open>The Task Store and the filesystem\<close>

text \<open>A row of the table \<^verbatim>\<open>tasks\<close>. The status column is text in the database, so it
  is a string here: the query compares it with the literal \<^verbatim>\<open>"processed"\<close>.\<close>

record task =
  store_path :: string
  share_list :: "string list"
  status :: string

datatype entry = File | Dir

text \<open>
  The persistent state: the rows of \<^verbatim>\<open>tasks\<close> in table order, the filesystem as a map
  from normalised paths to what is there, and the two ways the database can fail:
  \<open>connect_fault\<close> is the exception \<^verbatim>\<open>DBHandler.connect()\<close> raises, if any, and
  \<open>execute_fault\<close> the exception \<^verbatim>\<open>db_cur.execute\<close> raises, if any.
\<close>

record env =
  tasks :: "task list"
  fs :: "string \<rightharpoonup> entry"
  connect_fault :: "exn option"
  execute_fault :: "exn option"

text \<open>The three SQL commands of \<^verbatim>\<open>uploader.py\<close>, lines 14 to 20; the two with a
  \<^verbatim>\<open>?\<close> carry their parameter.\<close>

datatype sql = CMD_GET_FOLDERS | CMD_SET_UPLOADING string | CMD_RM_TASK string

text \<open>Modelled from the spec: \<^verbatim>\<open>DBHandler.connect\<close> of \<^verbatim>\<open>manage_db\<close>, which is not
  among the sources. It gives a scoped connection to the Task Store or fails because the
  backing storage cannot be reached; an exception raised inside the \<^verbatim>\<open>with\<close> block
  leaves the block after the connection is released.\<close>

definition connect :: "env \<Rightarrow> exn + unit" where
  "connect e = (case connect_fault e of Some x \<Rightarrow> Inl x | None \<Rightarrow> Inr ())"

text \<open>\<^verbatim>\<open>db_cur.execute(cmd)\<close> followed by \<^verbatim>\<open>fetchall()\<close>: the rows selected and the
  store afterwards.\<close>

fun execute :: "sql \<Rightarrow> env \<Rightarrow> exn + (task list \<times> env)" where
  "execute cmd e =
     (case execute_fault e of
        Some x \<Rightarrow> Inl x
      | None \<Rightarrow>
          (case cmd of
             CMD_GET_FOLDERS \<Rightarrow> Inr (filter (\<lambda>t. status t = ''processed'') (tasks e), e)
           | CMD_SET_UPLOADING p \<Rightarrow>
               Inr ([], e\<lparr>tasks := map (\<lambda>t. if store_path t = p
                                              then t\<lparr>status := ''uploading''\<rparr> else t) (tasks e)\<rparr>)
           | CMD_RM_TASK p \<Rightarrow>
               Inr ([], e\<lparr>tasks := filter (\<lambda>t. store_path t \<noteq> p) (tasks e)\<rparr>)))"

text \<open>Modelled from the spec: the constants \<^verbatim>\<open>TSK_STORE_INDEX\<close> and
  \<^verbatim>\<open>TSK_SHR_INDEX\<close> of \<^verbatim>\<open>manage_db\<close>, which is not among the sources: the positions
  of the columns \<^verbatim>\<open>store_path\<close> and \<^verbatim>\<open>share_list\<close> in a fetched row.\<close>

datatype column = TSK_STORE_INDEX | TSK_SHR_INDEX

fun row_get :: "task \<Rightarrow> column \<Rightarrow> 'c pyval" where
  "row_get t TSK_STORE_INDEX = PStr (store_path t)"
| "row_get t TSK_SHR_INDEX = PList (share_list t)"

text \<open>\<^verbatim>\<open>shutil.rmtree(d)\<close>: a missing path and a path that is not a directory raise;
  otherwise the directory and everything below it are gone.\<close>

definition is_under :: "string \<Rightarrow> string \<Rightarrow> bool" where
  "is_under d p = (p = d \<or> take (Suc (length d)) p = d @ ''/'')"

definition rmtree :: "string \<Rightarrow> env \<Rightarrow> exn + env" where
  "rmtree d e =
     (case fs e d of
        None \<Rightarrow> Inl (FileNotFoundError d)
      | Some File \<Rightarrow> Inl (NotADirectoryError d)
      | Some Dir \<Rightarrow> Inr (e\<lparr>fs := (\<lambda>p. if is_under d p then None else fs e p)\<rparr>))"

subsection \<open>Calling a Python function\<close>

text \<open>
  A callable with plain parameters (no defaults, no \<^verbatim>\<open>*args\<close>, no \<^verbatim>\<open>**kwargs\<close>), as
  \<^verbatim>\<open>_upload(client, folder, share_list)\<close> is declared: the names of its parameters in
  order, and its body, which receives the bound parameters and may change the Task Store
  and the filesystem, and may raise.
\<close>

type_synonym 'c binding = "(string \<times> 'c pyval) list"

record 'c callable =
  params :: "string list"
  body :: "'c binding \<Rightarrow> env \<Rightarrow> exn option \<times> env"

text \<open>Keyword arguments are matched after the positional ones have filled the first
  parameters: a keyword that names no parameter, or one that is already filled, is a
  \<^verbatim>\<open>TypeError\<close>.\<close>

fun bind_keywords :: "string list \<Rightarrow> 'c binding \<Rightarrow> 'c binding \<Rightarrow> exn + 'c binding" where
  "bind_keywords ps bound [] = Inr bound"
| "bind_keywords ps bound ((k, v) # kw) =
     (if k \<notin> set ps then Inl (TypeError ''got an unexpected keyword argument'')
      else if k \<in> set (map fst bound) then Inl (TypeError ''got multiple values for argument'')
      else bind_keywords ps (bound @ [(k, v)]) kw)"

definition bind_args :: "string list \<Rightarrow> 'c pyval list \<Rightarrow> 'c binding \<Rightarrow> exn + 'c binding" where
  "bind_args ps pos kw =
     (case bind_keywords ps (zip ps pos) kw of
        Inl e \<Rightarrow> Inl e
      | Inr bound \<Rightarrow>
          if length ps < length pos then Inl (TypeError ''takes fewer positional arguments'')
          else if \<exists>p \<in> set ps. p \<notin> set (map fst bound)
          then Inl (TypeError ''missing required positional argument'')
          else Inr bound)"

subsection \<open>The process: log, pools and the trace of calls\<close>

text \<open>A \<^verbatim>\<open>ThreadPool\<close> object: which pool it is, and how many worker threads it has.\<close>

record pool =
  pool_id :: nat
  processes :: nat

text \<open>
  The state of the running process. \<open>cpus\<close> is what \<^verbatim>\<open>os.cpu_count()\<close> answers
  (\<open>None\<close> when it cannot tell), \<open>pools\<close> the pools constructed so far. Three fields
  only record what happened: \<open>submitted\<close> has one entry for each \<^verbatim>\<open>starmap\<close> call
  (the pool and the argument tuples), \<open>attempted\<close> one entry for each call of the upload
  function (its positional and keyword arguments), and \<open>applied\<close> one entry for each
  call whose arguments were bound and whose body ran (the binding).
\<close>

record 'c world =
  store :: env
  logged :: "log_record list"
  cpus :: "nat option"
  pools :: "pool list"
  submitted :: "(nat \<times> 'c pyval list list) list"
  attempted :: "('c pyval list \<times> 'c binding) list"
  applied :: "'c binding list"

text \<open>A call \<^verbatim>\<open>f(*pos, **kw)\<close>.\<close>

definition invoke ::
  "'c callable \<Rightarrow> 'c pyval list \<Rightarrow> 'c binding \<Rightarrow> 'c world \<Rightarrow> exn option \<times> 'c world" where
  "invoke f pos kw w =
     (let w1 = w\<lparr>attempted := attempted w @ [(pos, kw)]\<rparr> in
      case bind_args (params f) pos kw of
        Inl e \<Rightarrow> (Some e, w1)
      | Inr b \<Rightarrow>
          (case body f b (store w1) of
             (r, s) \<Rightarrow> (r, w1\<lparr>store := s, applied := applied w1 @ [b]\<rparr>)))"

text \<open>\<^verbatim>\<open>functools.partial(f, **kw0)\<close>: the object that, called with the positional
  arguments \<open>pos\<close>, calls \<^verbatim>\<open>f(*pos, **kw0)\<close>.\<close>

definition partial ::
  "'c callable \<Rightarrow> 'c binding \<Rightarrow> 'c pyval list \<Rightarrow> 'c world \<Rightarrow> exn option \<times> 'c world" where
  "partial f kw0 pos w = invoke f pos kw0 w"

subsection \<open>The thread pool\<close>

text \<open>\<^verbatim>\<open>multiprocessing.cpu_count()\<close> and \<^verbatim>\<open>pool.ThreadPool(n)\<close>.\<close>

definition cpu_count :: "'c world \<Rightarrow> exn + nat" where
  "cpu_count w =
     (case cpus w of
        None \<Rightarrow> Inl (NotImplementedError ''cannot determine number of cpus'')
      | Some n \<Rightarrow> Inr n)"

definition ThreadPool :: "nat \<Rightarrow> 'c world \<Rightarrow> exn + (pool \<times> 'c world)" where
  "ThreadPool n w =
     (if n < 1 then Inl (ValueError ''Number of processes must be at least 1'')
      else let p = \<lparr>pool_id = length (pools w), processes = n\<rparr>
           in Inr (p, w\<lparr>pools := pools w @ [p]\<rparr>))"

text \<open>Line 21 of \<^verbatim>\<open>uploader.py\<close>, run when the module is loaded:
  \<^verbatim>\<open>POOL = pool.ThreadPool(cpu_count())\<close>. The result is the module's global
  \<^verbatim>\<open>POOL\<close>.\<close>

definition uploader_module :: "'c world \<Rightarrow> exn + (pool \<times> 'c world)" where
  "uploader_module w =
     (case cpu_count w of
        Inl e \<Rightarrow> Inl e
      | Inr n \<Rightarrow> ThreadPool n w)"

text \<open>
  \<^verbatim>\<open>Pool._map_async\<close> cuts the argument tuples into chunks: with no chunk size given,
  the length divided by four times the number of workers, rounded up.
\<close>

definition chunksize_of :: "nat \<Rightarrow> nat \<Rightarrow> nat" where
  "chunksize_of len n =
     (let chunksize = len div (n * 4); extra = len mod (n * 4);
          chunksize = (if extra \<noteq> 0 then chunksize + 1 else chunksize)
      in if len = 0 then 0 else chunksize)"

function get_tasks :: "'a list \<Rightarrow> nat \<Rightarrow> 'a list list" where
  "get_tasks it sz =
     (let x = take sz it in if x = [] then [] else x # get_tasks (drop sz it) sz)"
  by pat_completeness auto
termination
  by (relation "measure (\<lambda>(it, sz). length it)") (auto simp: take_eq_Nil)

declare get_tasks.simps [simp del]

text \<open>\<^verbatim>\<open>starmapstar\<close>: one chunk, run by one worker. The first call that raises ends
  the chunk: the tuples after it in the chunk are not called.\<close>

fun starmapstar ::
  "('a \<Rightarrow> 's \<Rightarrow> exn option \<times> 's) \<Rightarrow> 'a list \<Rightarrow> 's \<Rightarrow> exn option \<times> 's" where
  "starmapstar f [] w = (None, w)"
| "starmapstar f (a # as) w =
     (case f a w of
        (Some e, w') \<Rightarrow> (Some e, w')
      | (None, w') \<Rightarrow> starmapstar f as w')"

text \<open>
  All chunks are run, whether or not an earlier one raised, and the result keeps the
  first exception. The workers run in parallel threads; here the chunks run one after
  the other in the order of submission, and the first exception is the one of the
  earliest chunk.
\<close>

fun run_chunks ::
  "('a \<Rightarrow> 's \<Rightarrow> exn option \<times> 's) \<Rightarrow> 'a list list \<Rightarrow> 's \<Rightarrow> exn option \<times> 's" where
  "run_chunks f [] w = (None, w)"
| "run_chunks f (c # cs) w =
     (case starmapstar f c w of
        (r, w') \<Rightarrow>
          (case run_chunks f cs w' of
             (r', w'') \<Rightarrow> ((case r of Some e \<Rightarrow> Some e | None \<Rightarrow> r'), w'')))"

text \<open>\<^verbatim>\<open>POOL.starmap(func, iterable)\<close>: compute the chunks, submit, wait until every
  chunk is done, then return or raise the exception kept. The chunk size is a division by
  the number of workers, which \<^verbatim>\<open>ThreadPool\<close> never lets be zero.\<close>

definition starmap ::
  "pool \<Rightarrow> ('c pyval list \<Rightarrow> 'c world \<Rightarrow> exn option \<times> 'c world) \<Rightarrow> 'c pyval list list
     \<Rightarrow> 'c world \<Rightarrow> (exn + unit) \<times> 'c world" where
  "starmap p func iterable w =
     (if processes p = 0 then (Inl (ZeroDivisionError ''integer division or modulo by zero''), w)
      else
        let chunksize = chunksize_of (length iterable) (processes p);
            task_batches = get_tasks iterable chunksize;
            w1 = w\<lparr>submitted := submitted w @ [(pool_id p, iterable)]\<rparr>
        in case run_chunks func task_batches w1 of
             (Some e, w2) \<Rightarrow> (Inl e, w2)
           | (None, w2) \<Rightarrow> (Inr (), w2))"

subsection \<open>The class Uploader\<close>

text \<open>\<^verbatim>\<open>Uploader._upload(client, folder, share_list)\<close>, lines 85 to 107: the abstract
  static method, whose body is \<^verbatim>\<open>pass\<close>.\<close>

definition Uploader_upload :: "'c callable" where
  "Uploader_upload = \<lparr>params = [''client'', ''folder'', ''share_list''],
                      body = (\<lambda>b e. (None, e))\<rparr>"

text \<open>The \<^verbatim>\<open>try\<close> block of \<^verbatim>\<open>begin_uploads\<close>, lines 70 to 72.\<close>

definition get_folders :: "env \<Rightarrow> exn + task list" where
  "get_folders e =
     (case connect e of
        Inl x \<Rightarrow> Inl x
      | Inr db_cur \<Rightarrow>
          (case execute CMD_GET_FOLDERS e of
             Inl x \<Rightarrow> Inl x
           | Inr (tasks_list, e') \<Rightarrow> Inr tasks_list))"

text \<open>\<^verbatim>\<open>Uploader.begin_uploads(client, up_func)\<close>, lines 53 to 83; \<open>POOL\<close> is the
  module's global.\<close>

definition begin_uploads ::
  "pool \<Rightarrow> 'c \<Rightarrow> 'c callable \<Rightarrow> 'c world \<Rightarrow> (exn + unit) \<times> 'c world" where
  "begin_uploads POOL client up_func w =
     (case get_folders (store w) of
        Inl error \<Rightarrow>
          if is_DBException error
          then (Inr (), w\<lparr>logged := logged w @ [(WARNING, Text ''Failed to connect to database''),
                                                 (DEBUG, Exc error)]\<rparr>)
          else (Inl error, w)
      | Inr tasks_list \<Rightarrow>
          (let upload_pool =
                 map (\<lambda>task. [row_get task TSK_STORE_INDEX, row_get task TSK_SHR_INDEX]) tasks_list
           in if upload_pool \<noteq> []
              then starmap POOL (partial up_func [(''client'', PClient client)]) upload_pool w
              else (Inr (), w)))"

text \<open>\<^verbatim>\<open>Uploader._remove(folder)\<close>, lines 109 to 127.\<close>

definition Uploader_remove :: "string \<Rightarrow> env \<Rightarrow> (exn + unit) \<times> env" where
  "Uploader_remove folder e =
     (case connect e of
        Inl x \<Rightarrow> (Inl x, e)
      | Inr db_cur \<Rightarrow>
          (case execute (CMD_RM_TASK folder) e of
             Inl x \<Rightarrow> (Inl x, e)
           | Inr (rows, e1) \<Rightarrow>
               (case rmtree folder e1 of
                  Inl x \<Rightarrow> (Inl x, e1)
                | Inr e2 \<Rightarrow> (Inr (), e2))))"

text \<open>What the Task Store says about the status of each folder: the pairs of
  \<^verbatim>\<open>store_path\<close> and \<^verbatim>\<open>status\<close>, in table order.\<close>

definition statuses :: "env \<Rightarrow> (string \<times> string) list" where
  "statuses e = map (\<lambda>t. (store_path t, status t)) (tasks e)"



text \<open>
  The running process with the namespace of the module \<^verbatim>\<open>uploader\<close>: \<open>uploader_POOL\<close>
  is the module's global \<^verbatim>\<open>POOL\<close>, \<open>None\<close> as long as the module is not loaded. Python
  runs the body of a module at its first import only; a later import finds the module
  loaded and runs nothing.
\<close>

record 'c process =
  world :: "'c world"
  uploader_POOL :: "pool option"

definition load_uploader :: "'c process \<Rightarrow> exn + 'c process" where
  "load_uploader p =
     (case uploader_POOL p of
        Some loaded \<Rightarrow> Inr p
      | None \<Rightarrow>
          (case uploader_module (world p) of
             Inl e \<Rightarrow> Inl e
           | Inr (POOL, w) \<Rightarrow> Inr (p\<lparr>world := w, uploader_POOL := Some POOL\<rparr>)))"

text \<open>The job \<^verbatim>\<open>run_uploader\<close> that \<^verbatim>\<open>_add_to_scheduler\<close> registers (lines 129 to 147):
  a firing calls \<^verbatim>\<open>begin_uploads\<close> with the arguments \<^verbatim>\<open>[client, _upload]\<close> of its
  Uploader, and \<^verbatim>\<open>begin_uploads\<close> finds \<^verbatim>\<open>POOL\<close> in the namespace of its module at the
  time of the call.\<close>

definition run_uploader ::
  "'c \<Rightarrow> 'c callable \<Rightarrow> 'c process \<Rightarrow> (exn + unit) \<times> 'c process" where
  "run_uploader client up_func p =
     (case uploader_POOL p of
        None \<Rightarrow> (Inl (NameError ''name POOL is not defined''), p)
      | Some POOL \<Rightarrow>
          (case begin_uploads POOL client up_func (world p) of
             (r, w) \<Rightarrow> (r, p\<lparr>world := w\<rparr>)))"

text \<open>Modelled from the spec: the Scheduler, which is not among the sources, fires its jobs
  again and again, and one firing that raises does not stop the later ones. A run of the
  process is the list of the firings, each with the arguments of the Uploader that
  registered it.\<close>

fun firings :: "('c \<times> 'c callable) list \<Rightarrow> 'c process \<Rightarrow> 'c process" where
  "firings [] p = p"
| "firings ((client, up_func) # js) p = firings js (snd (run_uploader client up_func p))"

subsection \<open>The module nephos.py\<close>

text \<open>
  What the start of the process touches: \<open>lock_fault\<close> is the exception
  \<^verbatim>\<open>SingleInstance()\<close> raises, if any, \<open>lock_owned\<close> says whether this process holds the
  lock, \<open>plog\<close> is the log and \<open>initialised\<close> lists the subsystems constructed so far.
\<close>

record proc =
  lock_fault :: "exn option"
  lock_owned :: bool
  plog :: "log_record list"
  initialised :: "string list"

text \<open>Modelled from the spec: \<^verbatim>\<open>SingleInstance\<close> of \<^verbatim>\<open>maintenance.single_instance\<close>,
  which is not among the sources: it obtains the lock or fails because another live
  process holds it.\<close>

definition SingleInstance :: "proc \<Rightarrow> exn + proc" where
  "SingleInstance p =
     (case lock_fault p of Some x \<Rightarrow> Inl x | None \<Rightarrow> Inr (p\<lparr>lock_owned := True\<rparr>))"

fun is_SingleInstanceException :: "exn \<Rightarrow> bool" where
  "is_SingleInstanceException (SingleInstanceException m) = True"
| "is_SingleInstanceException e = False"

text \<open>
  The module level code of \<^verbatim>\<open>nephos.py\<close>, lines 20 to 32: the guard, then the class
  statement. \<^verbatim>\<open>sys.exit(-1)\<close> raises \<^verbatim>\<open>SystemExit(-1)\<close>. The result \<open>Inr ()\<close> says
  that the module body ran to its end, so that the class \<^verbatim>\<open>Nephos\<close> exists. The imports
  of lines 4 to 17 come before the guard; the modules they load are not among the sources
  and are taken to bind names only.
\<close>

definition nephos_module :: "proc \<Rightarrow> (exn + unit) \<times> proc" where
  "nephos_module p =
     (case SingleInstance p of
        Inl err \<Rightarrow>
          if is_SingleInstanceException err
          then (Inl (SystemExit (- 1)), p\<lparr>plog := plog p @ [(ERROR, Exc err)]\<rparr>)
          else (Inl err, p)
      | Inr p' \<Rightarrow> (Inr (), p'))"

text \<open>\<^verbatim>\<open>Nephos.__init__\<close>, lines 39 to 66: the subsystems in the order in which they are
  constructed; \<open>first_time\<close> is what \<^verbatim>\<open>first_time()\<close> answers. The constructors are not
  among the sources: each is recorded by its name.\<close>

definition Nephos_init :: "bool \<Rightarrow> proc \<Rightarrow> proc" where
  "Nephos_init first_time p =
     (let p1 = p\<lparr>initialised := initialised p @ [''Config''],
                 plog := plog p @ [(INFO, Text ''Configuration completed!'')]\<rparr>;
          p2 = p1\<lparr>initialised := initialised p1 @
                    [''DBHandler'', ''Scheduler'', ''ChannelHandler'', ''JobHandler'',
                     ''Maintenance''],
                  plog := plog p1 @
                    [(INFO, Text ''Loading database, scheduler, maintenance modules...'')]\<rparr>;
          p3 = (if first_time
                then p2\<lparr>initialised := initialised p2 @
                       [''DBHandler.first_time'', ''DBHandler.init_jobs_db'',
                        ''Maintenance.add_maintenance_to_scheduler'']\<rparr>
                else p2)
      in p3\<lparr>plog := plog p3 @ [(INFO, Text ''Nephos is all set to launch'')]\<rparr>)"

text \<open>A program that uses the class loads the module and then constructs \<^verbatim>\<open>Nephos\<close>;
  when the module body raises, there is no class to construct.\<close>

definition launch :: "bool \<Rightarrow> proc \<Rightarrow> (exn + unit) \<times> proc" where
  "launch first_time p =
     (case nephos_module p of
        (Inl e, p') \<Rightarrow> (Inl e, p')
      | (Inr u, p') \<Rightarrow> (Inr (), Nephos_init first_time p'))"

text \<open>The exit status of an interpreter that ends with an uncaught exception: the low
  eight bits of the code of a \<^verbatim>\<open>SystemExit\<close>, and 1 for any other exception.\<close>

fun exit_status :: "exn \<Rightarrow> int" where
  "exit_status (SystemExit n) = n mod 256"
| "exit_status e = 1"

subsection \<open>Example states\<close>

text \<open>A store with one processed folder and one that is being uploaded, and the process
  after \<^verbatim>\<open>uploader.py\<close> was loaded on a machine with two processing units.\<close>

definition example_store :: env where
  "example_store =
     \<lparr>tasks = [\<lparr>store_path = ''/rec/a'', share_list = [''x''], status = ''processed''\<rparr>,
               \<lparr>store_path = ''/rec/b'', share_list = [], status = ''uploading''\<rparr>],
      fs = [''/rec/a'' \<mapsto> Dir, ''/rec/a/1.ts'' \<mapsto> File, ''/rec/b'' \<mapsto> Dir],
      connect_fault = None, execute_fault = None\<rparr>"

definition example_pool :: pool where
  "example_pool = \<lparr>pool_id = 0, processes = 2\<rparr>"

definition fresh_world :: "nat world" where
  "fresh_world = \<lparr>store = example_store, logged = [], cpus = Some 2, pools = [],
                   submitted = [], attempted = [], applied = []\<rparr>"

definition example_world :: "nat world" where
  "example_world = fresh_world\<lparr>pools := [example_pool]\<rparr>"

definition unreachable_world :: "nat world" where
  "unreachable_world =
     example_world\<lparr>store := example_store\<lparr>connect_fault := Some (DBException ''unreachable'')\<rparr>\<rparr>"

definition idle_world :: "nat world" where
  "idle_world =
     example_world\<lparr>store := example_store\<lparr>tasks :=
        [\<lparr>store_path = ''/rec/b'', share_list = [], status = ''uploading''\<rparr>]\<rparr>\<rparr>"

text \<open>Two upload functions that take the client last: one that does nothing, and one
  that removes the folder and its row once the upload is done.\<close>

definition quiet_upload :: "nat callable" where
  "quiet_upload = \<lparr>params = [''folder'', ''share_list'', ''client''],
                   body = (\<lambda>b e. (None, e))\<rparr>"

definition removing_upload :: "nat callable" where
  "removing_upload =
     \<lparr>params = [''folder'', ''share_list'', ''client''],
      body = (\<lambda>b e. case map_of b ''folder'' of
                       Some (PStr folder) \<Rightarrow>
                         (case Uploader_remove folder e of
                            (Inl x, e') \<Rightarrow> (Some x, e')
                          | (Inr u, e') \<Rightarrow> (None, e'))
                     | _ \<Rightarrow> (Some (TypeError ''folder is not a path''), e))\<rparr>"

text \<open>Five processed folders, on a machine with one processing unit and on one with
  two, and two upload functions that take the client last: one raises on every call, the
  other raises for the folder \<^verbatim>\<open>/rec/1\<close> and removes every other folder and its row.\<close>

definition single_pool :: pool where
  "single_pool = \<lparr>pool_id = 0, processes = 1\<rparr>"

definition busy_store :: env where
  "busy_store =
     \<lparr>tasks = map (\<lambda>p. \<lparr>store_path = p, share_list = [], status = ''processed''\<rparr>)
                  [''/rec/1'', ''/rec/2'', ''/rec/3'', ''/rec/4'', ''/rec/5''],
      fs = [''/rec/1'' \<mapsto> Dir, ''/rec/2'' \<mapsto> Dir, ''/rec/3'' \<mapsto> Dir, ''/rec/4'' \<mapsto> Dir,
            ''/rec/5'' \<mapsto> Dir],
      connect_fault = None, execute_fault = None\<rparr>"

definition busy_world :: "nat world" where
  "busy_world =
     \<lparr>store = busy_store, logged = [], cpus = Some 1, pools = [single_pool],
      submitted = [], attempted = [], applied = []\<rparr>"


definition raising_upload :: "nat callable" where
  "raising_upload = \<lparr>params = [''folder'', ''share_list'', ''client''],
                     body = (\<lambda>b e. (Some (OtherError ''upload failed''), e))\<rparr>"


text \<open>The process of the first example before and after \<^verbatim>\<open>uploader.py\<close> is loaded.\<close>

definition fresh_process :: "nat process" where
  "fresh_process = \<lparr>world = fresh_world, uploader_POOL = None\<rparr>"

definition example_process :: "nat process" where
  "example_process = \<lparr>world = example_world, uploader_POOL = Some example_pool\<rparr>"

definition locked_proc :: proc where
  "locked_proc = \<lparr>lock_fault = Some (SingleInstanceException ''already running''),
                   lock_owned = False, plog = [], initialised = []\<rparr>"

section \<open>Properties\<close>

subsection \<open>Reading the Task Store\<close>

lemma get_folders_ok:
  "connect_fault e = None \<Longrightarrow> execute_fault e = None \<Longrightarrow>
   get_folders e = Inr (filter (\<lambda>t. status t = ''processed'') (tasks e))"
  by (simp add: get_folders_def connect_def)

text \<open>
  C2. When \<^verbatim>\<open>DBHandler.connect()\<close> raises a \<^verbatim>\<open>DBException\<close> at the start of a cycle,
  \<^verbatim>\<open>begin_uploads\<close> returns normally, and the state after it is the state before it with
  two log records added, the warning and the debug record of the error: the Task Store
  and the filesystem are the same, nothing was submitted to the pool and the upload
  function was not called.
\<close>

theorem begin_uploads_connect_failure:
  assumes "connect_fault (store w) = Some (DBException m)"
  shows "begin_uploads POOL client up_func w =
           (Inr (), w\<lparr>logged := logged w @ [(WARNING, Text ''Failed to connect to database''),
                                             (DEBUG, Exc (DBException m))]\<rparr>)
         \<and> store (snd (begin_uploads POOL client up_func w)) = store w
         \<and> submitted (snd (begin_uploads POOL client up_func w)) = submitted w
         \<and> attempted (snd (begin_uploads POOL client up_func w)) = attempted w"
  using assms by (simp add: begin_uploads_def get_folders_def connect_def)

theorem begin_uploads_connect_failure_witness:
  "connect_fault (store unreachable_world) = Some (DBException ''unreachable'')
   \<and> begin_uploads example_pool 7 removing_upload unreachable_world =
       (Inr (), unreachable_world\<lparr>logged := [(WARNING, Text ''Failed to connect to database''),
                                               (DEBUG, Exc (DBException ''unreachable''))]\<rparr>)
   \<and> tasks (store (snd (begin_uploads example_pool 7 removing_upload unreachable_world)))
       = tasks example_store"
proof -
  have h: "connect_fault (store unreachable_world) = Some (DBException ''unreachable'')"
    by (simp add: unreachable_world_def)
  have l: "logged unreachable_world = []"
    by (simp add: unreachable_world_def example_world_def fresh_world_def)
  have t: "tasks (store unreachable_world) = tasks example_store"
    by (simp add: unreachable_world_def)
  from begin_uploads_connect_failure [OF h, of example_pool 7 removing_upload] h l t
  show ?thesis by simp
qed

text \<open>
  C9. When the Task Store answers and holds no row whose status is \<^verbatim>\<open>processed\<close>,
  \<^verbatim>\<open>begin_uploads\<close> returns normally and leaves the whole state as it was: no
  submission to the pool, no call of the upload function, no change of the Task Store or
  of the filesystem.
\<close>

theorem begin_uploads_empty_snapshot:
  assumes "connect_fault (store w) = None" and "execute_fault (store w) = None"
    and "\<forall>t \<in> set (tasks (store w)). status t \<noteq> ''processed''"
  shows "begin_uploads POOL client up_func w = (Inr (), w)"
proof -
  have "filter (\<lambda>t. status t = ''processed'') (tasks (store w)) = []"
    using assms(3) by (simp add: filter_empty_conv)
  then show ?thesis
    using assms(1,2) by (simp add: begin_uploads_def get_folders_ok)
qed

theorem begin_uploads_empty_snapshot_witness:
  "connect_fault (store idle_world) = None \<and> execute_fault (store idle_world) = None
   \<and> map status (tasks (store idle_world)) = [''uploading'']
   \<and> begin_uploads example_pool 7 removing_upload idle_world = (Inr (), idle_world)"
proof -
  have h1: "connect_fault (store idle_world) = None"
    by (simp add: idle_world_def example_store_def)
  have h2: "execute_fault (store idle_world) = None"
    by (simp add: idle_world_def example_store_def)
  have h3: "\<forall>t \<in> set (tasks (store idle_world)). status t \<noteq> ''processed''"
    by (simp add: idle_world_def)
  have h4: "map status (tasks (store idle_world)) = [''uploading'']"
    by (simp add: idle_world_def)
  from begin_uploads_empty_snapshot [OF h1 h2 h3, of example_pool 7 removing_upload] h1 h2 h4
  show ?thesis by simp
qed

subsection \<open>Removing a folder and its row\<close>

lemma Uploader_remove_completes:
  assumes "connect_fault e = None" and "execute_fault e = None" and "fs e folder = Some Dir"
  shows "Uploader_remove folder e =
     (Inr (), e\<lparr>tasks := filter (\<lambda>t. store_path t \<noteq> folder) (tasks e),
               fs := (\<lambda>p. if is_under folder p then None else fs e p)\<rparr>)"
  using assms by (simp add: Uploader_remove_def connect_def rmtree_def cong: if_cong)

text \<open>
  C4. After a call \<^verbatim>\<open>_remove(folder)\<close> that completes, the Task Store holds the rows it
  held before except those whose \<^verbatim>\<open>store_path\<close> is the folder, so no row of the folder
  is left, and the folder and every path below it are absent from the filesystem, while
  every other path is as it was.
\<close>

theorem Uploader_remove_row_and_folder:
  assumes "Uploader_remove folder e = (Inr (), e')"
  shows "tasks e' = filter (\<lambda>t. store_path t \<noteq> folder) (tasks e)
         \<and> (\<forall>t \<in> set (tasks e'). store_path t \<noteq> folder)
         \<and> fs e' folder = None
         \<and> (\<forall>p. is_under folder p \<longrightarrow> fs e' p = None)
         \<and> (\<forall>p. \<not> is_under folder p \<longrightarrow> fs e' p = fs e p)"
  using assms
  by (auto simp: Uploader_remove_def connect_def rmtree_def is_under_def
           split: option.splits entry.splits)

theorem Uploader_remove_row_and_folder_witness:
  "Uploader_remove ''/rec/a'' example_store
     = (Inr (), snd (Uploader_remove ''/rec/a'' example_store))
   \<and> tasks (snd (Uploader_remove ''/rec/a'' example_store))
       = [\<lparr>store_path = ''/rec/b'', share_list = [], status = ''uploading''\<rparr>]
   \<and> fs (snd (Uploader_remove ''/rec/a'' example_store)) ''/rec/a'' = None
   \<and> fs (snd (Uploader_remove ''/rec/a'' example_store)) ''/rec/a/1.ts'' = None
   \<and> fs (snd (Uploader_remove ''/rec/a'' example_store)) ''/rec/b'' = Some Dir"
proof -
  have h: "Uploader_remove ''/rec/a'' example_store
             = (Inr (), snd (Uploader_remove ''/rec/a'' example_store))"
    by (simp add: Uploader_remove_def connect_def rmtree_def example_store_def)
  have u: "is_under ''/rec/a'' ''/rec/a/1.ts''" and n: "\<not> is_under ''/rec/a'' ''/rec/b''"
    by (simp_all add: is_under_def)
  have t: "filter (\<lambda>t. store_path t \<noteq> ''/rec/a'') (tasks example_store)
             = [\<lparr>store_path = ''/rec/b'', share_list = [], status = ''uploading''\<rparr>]"
    and b: "fs example_store ''/rec/b'' = Some Dir"
    by (simp_all add: example_store_def)
  from Uploader_remove_row_and_folder [OF h] h u n t b
  show ?thesis by metis
qed

text \<open>
  C10. \<^verbatim>\<open>_remove\<close> catches nothing and deletes the row first. When
  \<^verbatim>\<open>DBHandler.connect()\<close> raises, or the execution of the deletion raises, the call
  raises the same exception and the Task Store and the filesystem are as before. When the
  database answers and the folder is missing, the call raises what \<^verbatim>\<open>rmtree\<close> raises
  and the row is gone already: the deletion of the row comes before that of the folder.
\<close>

theorem Uploader_remove_store_errors:
  "(connect_fault e = Some x \<longrightarrow> Uploader_remove folder e = (Inl x, e))
   \<and> (connect_fault e = None \<and> execute_fault e = Some x \<longrightarrow>
        Uploader_remove folder e = (Inl x, e))
   \<and> (connect_fault e = None \<and> execute_fault e = None \<and> fs e folder = None \<longrightarrow>
        Uploader_remove folder e =
          (Inl (FileNotFoundError folder),
           e\<lparr>tasks := filter (\<lambda>t. store_path t \<noteq> folder) (tasks e)\<rparr>))"
  by (simp add: Uploader_remove_def connect_def rmtree_def)

theorem Uploader_remove_store_errors_witness:
  "Uploader_remove ''/rec/a'' (example_store\<lparr>connect_fault := Some (DBException ''unreachable'')\<rparr>)
     = (Inl (DBException ''unreachable''),
        example_store\<lparr>connect_fault := Some (DBException ''unreachable'')\<rparr>)
   \<and> Uploader_remove ''/rec/a'' (example_store\<lparr>execute_fault := Some (OtherError ''locked'')\<rparr>)
     = (Inl (OtherError ''locked''), example_store\<lparr>execute_fault := Some (OtherError ''locked'')\<rparr>)
   \<and> Uploader_remove ''/rec/c'' example_store
     = (Inl (FileNotFoundError ''/rec/c''), example_store)"
proof -
  have c: "connect_fault example_store = None" and x: "execute_fault example_store = None"
    and f: "fs example_store ''/rec/c'' = None"
    and t: "filter (\<lambda>t. store_path t \<noteq> ''/rec/c'') (tasks example_store) = tasks example_store"
    by (simp_all add: example_store_def)
  from Uploader_remove_store_errors
         [of "example_store\<lparr>connect_fault := Some (DBException ''unreachable'')\<rparr>"
             "DBException ''unreachable''" "''/rec/a''"]
       Uploader_remove_store_errors
         [of "example_store\<lparr>execute_fault := Some (OtherError ''locked'')\<rparr>"
             "OtherError ''locked''" "''/rec/a''"]
       Uploader_remove_store_errors [of example_store "OtherError ''none''" "''/rec/c''"]
       c x f t
  show ?thesis by simp
qed

subsection \<open>The single-instance guard\<close>

text \<open>
  C7. When \<^verbatim>\<open>SingleInstance()\<close> raises a \<^verbatim>\<open>SingleInstanceException\<close>, loading
  \<^verbatim>\<open>nephos.py\<close> logs the exception as an error and raises \<^verbatim>\<open>SystemExit(-1)\<close>, which
  ends the process with the status 255, not zero. Nothing else changes: no subsystem is
  constructed, and a program that loads the module to construct \<^verbatim>\<open>Nephos\<close> ends the
  same way, without reaching the constructor.
\<close>

theorem nephos_module_lock_failure:
  assumes "lock_fault p = Some (SingleInstanceException m)"
  shows "nephos_module p =
           (Inl (SystemExit (- 1)),
            p\<lparr>plog := plog p @ [(ERROR, Exc (SingleInstanceException m))]\<rparr>)
         \<and> exit_status (SystemExit (- 1)) = 255
         \<and> exit_status (SystemExit (- 1)) \<noteq> 0
         \<and> initialised (snd (nephos_module p)) = initialised p
         \<and> launch first_time p = nephos_module p
         \<and> initialised (snd (launch first_time p)) = initialised p"
  using assms by (simp add: nephos_module_def launch_def SingleInstance_def)

theorem nephos_module_lock_failure_witness:
  "lock_fault locked_proc = Some (SingleInstanceException ''already running'')
   \<and> nephos_module locked_proc =
       (Inl (SystemExit (- 1)),
        locked_proc\<lparr>plog := [(ERROR, Exc (SingleInstanceException ''already running''))]\<rparr>)
   \<and> initialised (snd (launch True locked_proc)) = []"
proof -
  have h: "lock_fault locked_proc = Some (SingleInstanceException ''already running'')"
    and l: "plog locked_proc = []" and i: "initialised locked_proc = []"
    by (simp_all add: locked_proc_def)
  from nephos_module_lock_failure [OF h, of True] h l i
  show ?thesis by simp
qed

text \<open>When the lock is free the module body runs to its end with the lock held, and the
  constructor then builds the subsystems, the configuration first.\<close>

lemma launch_lock_free:
  assumes "lock_fault p = None"
  shows "nephos_module p = (Inr (), p\<lparr>lock_owned := True\<rparr>)"
    and "fst (launch first_time p) = Inr ()"
    and "take (Suc (length (initialised p))) (initialised (snd (launch first_time p)))
           = initialised p @ [''Config'']"
  using assms
  by (simp_all add: nephos_module_def launch_def SingleInstance_def Nephos_init_def Let_def)

subsection \<open>What the calls through the pool leave alone\<close>

lemma invoke_frame:
  "pools (snd (invoke f pos kw w)) = pools w"
  "logged (snd (invoke f pos kw w)) = logged w"
  "cpus (snd (invoke f pos kw w)) = cpus w"
  "submitted (snd (invoke f pos kw w)) = submitted w"
  by (simp_all add: invoke_def Let_def split: sum.splits prod.splits)

lemma starmapstar_keeps:
  assumes "\<And>a w. g (snd (f a w)) = g w"
  shows "g (snd (starmapstar f as w)) = g w"
proof (induction as arbitrary: w)
  case Nil
  show ?case by simp
next
  case (Cons a as)
  obtain r w' where fa: "f a w = (r, w')" by (cases "f a w")
  have "g w' = g w" using assms [of a w] fa by simp
  then show ?case using fa Cons.IH [of w'] by (cases r) simp_all
qed

lemma run_chunks_keeps:
  assumes "\<And>a w. g (snd (f a w)) = g w"
  shows "g (snd (run_chunks f cs w)) = g w"
proof (induction cs arbitrary: w)
  case Nil
  show ?case by simp
next
  case (Cons c cs)
  obtain r w' where sc: "starmapstar f c w = (r, w')" by (cases "starmapstar f c w")
  have "g w' = g w" using starmapstar_keeps [of g f c w, OF assms] sc by simp
  then show ?case using sc Cons.IH [of w'] by (auto split: prod.splits)
qed


lemma chunksize_of_pos: "0 < len \<Longrightarrow> 0 < n \<Longrightarrow> 0 < chunksize_of len n"
  by (auto simp: chunksize_of_def Let_def)

lemma starmap_keeps:
  assumes "\<And>a w. g (snd (f a w)) = g w"
    and "\<And>w x. g (w\<lparr>submitted := x\<rparr>) = g w"
  shows "g (snd (starmap p f it w)) = g w"
proof (cases "processes p = 0")
  case True
  then show ?thesis by (simp add: starmap_def)
next
  case False
  let ?w1 = "w\<lparr>submitted := submitted w @ [(pool_id p, it)]\<rparr>"
  let ?cs = "get_tasks it (chunksize_of (length it) (processes p))"
  have "g (snd (run_chunks f ?cs ?w1)) = g ?w1"
    by (rule run_chunks_keeps) (rule assms(1))
  then have "g (snd (run_chunks f ?cs ?w1)) = g w" by (simp add: assms(2))
  then show ?thesis using False
    by (auto simp: starmap_def Let_def split: prod.splits option.splits)
qed

lemma starmap_submitted:
  assumes "\<And>a w. submitted (snd (f a w)) = submitted w" and "processes p \<noteq> 0"
  shows "submitted (snd (starmap p f it w)) = submitted w @ [(pool_id p, it)]"
proof -
  let ?w1 = "w\<lparr>submitted := submitted w @ [(pool_id p, it)]\<rparr>"
  let ?cs = "get_tasks it (chunksize_of (length it) (processes p))"
  have "submitted (snd (run_chunks f ?cs ?w1)) = submitted ?w1"
    by (rule run_chunks_keeps) (rule assms(1))
  then show ?thesis using assms(2)
    by (auto simp: starmap_def Let_def split: prod.splits option.splits)
qed

lemma partial_frame:
  "pools (snd (partial f kw a w)) = pools w"
  "logged (snd (partial f kw a w)) = logged w"
  "cpus (snd (partial f kw a w)) = cpus w"
  "submitted (snd (partial f kw a w)) = submitted w"
  by (simp_all add: partial_def invoke_frame)

lemma begin_uploads_pools: "pools (snd (begin_uploads POOL client up_func w)) = pools w"
proof -
  have "\<And>it. pools (snd (starmap POOL (partial up_func [(''client'', PClient client)]) it w)) = pools w"
    by (rule starmap_keeps) (simp_all add: partial_frame)
  then show ?thesis
    by (simp add: begin_uploads_def Let_def split: sum.splits)
qed

lemma uploader_module_pool:
  assumes "uploader_module w0 = Inr (POOL, w)"
  shows "cpus w0 = Some (processes POOL)" and "0 < processes POOL"
    and "pools w = pools w0 @ [POOL]" and "pool_id POOL = length (pools w0)"
    and "w = w0\<lparr>pools := pools w0 @ [POOL]\<rparr>"
  using assms
  by (auto simp: uploader_module_def cpu_count_def ThreadPool_def Let_def
           split: option.splits if_splits)

subsection \<open>The snapshot and its submission\<close>

text \<open>
  C3. Let \<open>POOL\<close> be the pool that loading \<^verbatim>\<open>uploader.py\<close> created. Its number of
  workers is the number of processing units. In a cycle in which the Task Store answers,
  the snapshot is the list of the rows whose status is \<^verbatim>\<open>processed\<close>, and no other row;
  when it is empty the cycle submits nothing, and otherwise it makes exactly one
  submission, to \<open>POOL\<close>, of one tuple (\<^verbatim>\<open>store_path\<close>, \<^verbatim>\<open>share_list\<close>) for each row of
  the snapshot, in order.
\<close>

theorem begin_uploads_snapshot_submitted:
  assumes "uploader_module w0 = Inr (POOL, w1)"
    and "connect_fault (store w) = None" and "execute_fault (store w) = None"
  shows "cpus w0 = Some (processes POOL)
         \<and> submitted (snd (begin_uploads POOL client up_func w)) =
             submitted w @
             (let snapshot = filter (\<lambda>t. status t = ''processed'') (tasks (store w))
              in if snapshot = [] then []
                 else [(pool_id POOL,
                        map (\<lambda>t. [PStr (store_path t), PList (share_list t)]) snapshot)])"
proof -
  have p: "processes POOL \<noteq> 0" and c: "cpus w0 = Some (processes POOL)"
    using uploader_module_pool(1,2) [OF assms(1)] by simp_all
  have "\<And>it. submitted (snd (starmap POOL (partial up_func [(''client'', PClient client)]) it w))
          = submitted w @ [(pool_id POOL, it)]"
    by (rule starmap_submitted) (simp_all add: partial_frame p)
  then show ?thesis
    using assms(2,3) c by (simp add: begin_uploads_def get_folders_ok Let_def)
qed

lemma uploader_module_example:
  "uploader_module fresh_world = Inr (example_pool, example_world)"
  by (simp add: uploader_module_def cpu_count_def ThreadPool_def fresh_world_def example_world_def
        example_pool_def Let_def)

theorem begin_uploads_snapshot_submitted_witness:
  "uploader_module fresh_world = Inr (example_pool, example_world)
   \<and> connect_fault (store example_world) = None
   \<and> execute_fault (store example_world) = None
   \<and> cpus fresh_world = Some (processes example_pool)
   \<and> submitted (snd (begin_uploads example_pool 7 removing_upload example_world))
       = [(0, [[PStr ''/rec/a'', PList [''x'']]])]"
proof -
  have h2: "connect_fault (store example_world) = None"
    and h3: "execute_fault (store example_world) = None"
    by (simp_all add: example_world_def fresh_world_def example_store_def)
  have r: "submitted example_world @
             (let snapshot = filter (\<lambda>t. status t = ''processed'') (tasks (store example_world))
              in if snapshot = [] then []
                 else [(pool_id example_pool,
                        map (\<lambda>t. [PStr (store_path t), PList (share_list t)]) snapshot)])
           = [(0, [[PStr ''/rec/a'', PList [''x'']] :: nat pyval list])]"
    by (simp add: example_world_def fresh_world_def example_store_def example_pool_def)
  from begin_uploads_snapshot_submitted [OF uploader_module_example h2 h3, of 7 removing_upload]
  show ?thesis using uploader_module_example h2 h3 r by simp
qed

subsection \<open>One pool for the whole process\<close>

lemma run_uploader_frame:
  "uploader_POOL (snd (run_uploader client up_func p)) = uploader_POOL p"
  "pools (world (snd (run_uploader client up_func p))) = pools (world p)"
  using begin_uploads_pools [of _ client up_func "world p"]
  by (auto simp: run_uploader_def split: option.splits prod.splits)
     (metis snd_conv)+

lemma firings_frame:
  "uploader_POOL (firings js p) = uploader_POOL p \<and>
   pools (world (firings js p)) = pools (world p)"
proof (induction js arbitrary: p)
  case Nil
  show ?case by simp
next
  case (Cons j js)
  obtain client up_func where j: "j = (client, up_func)" by (cases j)
  show ?case using Cons.IH [of "snd (run_uploader client up_func p)"]
    by (simp add: j run_uploader_frame)
qed

lemma load_uploader_fresh:
  assumes "uploader_POOL p0 = None" and "load_uploader p0 = Inr p1"
  shows "\<exists>POOL. uploader_POOL p1 = Some POOL \<and> uploader_module (world p0) = Inr (POOL, world p1)"
  using assms by (auto simp: load_uploader_def split: sum.splits)

lemma run_uploader_submitted:
  assumes "uploader_POOL q = Some POOL" and "processes POOL \<noteq> 0"
    and "connect_fault (store (world q)) = None" and "execute_fault (store (world q)) = None"
  shows "submitted (world (snd (run_uploader client up_func q))) =
           submitted (world q) @
           (let snapshot = filter (\<lambda>t. status t = ''processed'') (tasks (store (world q)))
            in if snapshot = [] then []
               else [(pool_id POOL,
                      map (\<lambda>t. [PStr (store_path t), PList (share_list t)]) snapshot)])"
proof -
  have "\<And>it. submitted (snd (starmap POOL (partial up_func [(''client'', PClient client)]) it
                               (world q)))
          = submitted (world q) @ [(pool_id POOL, it)]"
    by (rule starmap_submitted) (simp_all add: partial_frame assms(2))
  then have "submitted (snd (begin_uploads POOL client up_func (world q))) =
           submitted (world q) @
           (let snapshot = filter (\<lambda>t. status t = ''processed'') (tasks (store (world q)))
            in if snapshot = [] then []
               else [(pool_id POOL,
                      map (\<lambda>t. [PStr (store_path t), PList (share_list t)]) snapshot)])"
    using assms(3,4) by (simp add: begin_uploads_def get_folders_ok Let_def)
  moreover obtain r w' where "begin_uploads POOL client up_func (world q) = (r, w')"
    by (cases "begin_uploads POOL client up_func (world q)")
  ultimately show ?thesis using assms(1) by (simp add: run_uploader_def)
qed

text \<open>
  C8. In a process that has not loaded \<^verbatim>\<open>uploader.py\<close>, loading it constructs one pool,
  adds it to the pools of the process and binds it to the module's \<^verbatim>\<open>POOL\<close>; its number
  of workers is the number of processing units; loading the module again constructs
  nothing. After any firings \<open>js\<close>, with whatever clients and upload functions, \<^verbatim>\<open>POOL\<close>
  is still that pool and the pools of the process are the same, so no firing constructs a
  pool. The next firing, whose Task Store answers, makes exactly one submission, of the
  tuples of its processed rows, to that pool, or none when it finds no processed row.
\<close>

theorem POOL_shared_by_all_firings:
  assumes "uploader_POOL p0 = None" and "load_uploader p0 = Inr p1"
  shows "\<exists>POOL. uploader_POOL p1 = Some POOL
           \<and> cpus (world p0) = Some (processes POOL)
           \<and> pools (world p1) = pools (world p0) @ [POOL]
           \<and> pool_id POOL = length (pools (world p0))
           \<and> load_uploader p1 = Inr p1
           \<and> uploader_POOL (firings js p1) = Some POOL
           \<and> pools (world (firings js p1)) = pools (world p1)
           \<and> (connect_fault (store (world (firings js p1))) = None
                \<and> execute_fault (store (world (firings js p1))) = None \<longrightarrow>
              submitted (world (snd (run_uploader client up_func (firings js p1)))) =
                submitted (world (firings js p1)) @
                (let snapshot = filter (\<lambda>t. status t = ''processed'')
                                  (tasks (store (world (firings js p1))))
                 in if snapshot = [] then []
                    else [(pool_id POOL,
                           map (\<lambda>t. [PStr (store_path t), PList (share_list t)]) snapshot)]))"
proof -
  from load_uploader_fresh [OF assms] obtain POOL where
    P: "uploader_POOL p1 = Some POOL" and um: "uploader_module (world p0) = Inr (POOL, world p1)"
    by blast
  note fr = firings_frame [of js p1]
  have q: "uploader_POOL (firings js p1) = Some POOL" using fr P by simp
  have nz: "processes POOL \<noteq> 0" using uploader_module_pool(2) [OF um] by simp
  have "load_uploader p1 = Inr p1" using P by (simp add: load_uploader_def)
  moreover have "connect_fault (store (world (firings js p1))) = None
                \<and> execute_fault (store (world (firings js p1))) = None \<longrightarrow>
              submitted (world (snd (run_uploader client up_func (firings js p1)))) =
                submitted (world (firings js p1)) @
                (let snapshot = filter (\<lambda>t. status t = ''processed'')
                                  (tasks (store (world (firings js p1))))
                 in if snapshot = [] then []
                    else [(pool_id POOL,
                           map (\<lambda>t. [PStr (store_path t), PList (share_list t)]) snapshot)])"
    using run_uploader_submitted [OF q nz] by blast
  ultimately show ?thesis
    using P q fr uploader_module_pool(1,3,4) [OF um] by blast
qed

lemma firings_example:
  "firings [(7, quiet_upload)] example_process =
     example_process\<lparr>world := example_world
       \<lparr>submitted := [(0, [[PStr ''/rec/a'', PList [''x'']]])],
        attempted := [([PStr ''/rec/a'', PList [''x'']], [(''client'', PClient 7)])],
        applied := [[(''folder'', PStr ''/rec/a''), (''share_list'', PList [''x'']),
                     (''client'', PClient 7)]]\<rparr>\<rparr>"
  by (simp add: run_uploader_def example_process_def begin_uploads_def get_folders_def connect_def
        example_world_def fresh_world_def example_store_def example_pool_def starmap_def
        chunksize_of_def get_tasks.simps partial_def invoke_def bind_args_def quiet_upload_def
        Let_def)

theorem POOL_shared_by_all_firings_witness:
  "uploader_POOL fresh_process = None
   \<and> load_uploader fresh_process = Inr example_process
   \<and> uploader_POOL example_process = Some example_pool
   \<and> cpus (world fresh_process) = Some 2 \<and> processes example_pool = 2
   \<and> pools (world (firings [(7, quiet_upload)] example_process)) = [example_pool]
   \<and> submitted (world (snd (run_uploader 8 removing_upload
                               (firings [(7, quiet_upload)] example_process))))
       = [(0, [[PStr ''/rec/a'', PList [''x'']]]), (0, [[PStr ''/rec/a'', PList [''x'']]])]"
proof -
  let ?q = "firings [(7, quiet_upload)] example_process"
  have h1: "uploader_POOL fresh_process = None" by (simp add: fresh_process_def)
  have h2: "load_uploader fresh_process = Inr example_process"
    by (simp add: load_uploader_def fresh_process_def example_process_def
          uploader_module_example)
  have e: "uploader_POOL example_process = Some example_pool"
    and c: "cpus (world fresh_process) = Some 2" and p: "processes example_pool = 2"
    and i: "pool_id example_pool = 0"
    and pw: "pools (world example_process) = [example_pool]"
    by (simp_all add: example_process_def fresh_process_def fresh_world_def example_pool_def
          example_world_def)
  have f: "connect_fault (store (world ?q)) = None \<and> execute_fault (store (world ?q)) = None"
    and s: "submitted (world ?q) = [(0, [[PStr ''/rec/a'', PList [''x'']]])]"
    and t: "filter (\<lambda>t. status t = ''processed'') (tasks (store (world ?q)))
              = [\<lparr>store_path = ''/rec/a'', share_list = [''x''], status = ''processed''\<rparr>]"
    unfolding firings_example
    by (simp_all add: example_process_def example_world_def fresh_world_def example_store_def)
  from POOL_shared_by_all_firings [OF h1 h2, of "[(7, quiet_upload)]" 8 removing_upload]
  obtain POOL where
    P: "uploader_POOL example_process = Some POOL" and
    q: "pools (world ?q) = pools (world example_process)" and
    sub: "submitted (world (snd (run_uploader 8 removing_upload ?q))) =
            submitted (world ?q) @
            (let snapshot = filter (\<lambda>t. status t = ''processed'') (tasks (store (world ?q)))
             in if snapshot = [] then []
                else [(pool_id POOL,
                       map (\<lambda>t. [PStr (store_path t), PList (share_list t)]) snapshot)])"
    using f by blast
  from P e have "POOL = example_pool" by simp
  with sub s t i have "submitted (world (snd (run_uploader 8 removing_upload ?q)))
       = [(0, [[PStr ''/rec/a'', PList [''x'']]]), (0, [[PStr ''/rec/a'', PList [''x'']]])]"
    by simp
  with h1 h2 e c p q pw show ?thesis by simp
qed

subsection \<open>Dispatch waits for the batch\<close>





















text \<open>The same happens with the upload function as \<^verbatim>\<open>uploader.py\<close> declares it and
  with one that raises on every call: every call raises, and only the first task of each
  chunk is called.\<close>

lemma begin_uploads_declared_upload_chunks:
  "fst (begin_uploads single_pool 7 Uploader_upload busy_world)
     = Inl (TypeError ''got multiple values for argument'')
   \<and> map fst (attempted (snd (begin_uploads single_pool 7 Uploader_upload busy_world)))
       = [[PStr ''/rec/1'', PList []], [PStr ''/rec/3'', PList []], [PStr ''/rec/5'', PList []]]"
  by (simp add: begin_uploads_def get_folders_def connect_def busy_world_def busy_store_def
        single_pool_def starmap_def chunksize_of_def get_tasks.simps partial_def invoke_def
        bind_args_def Let_def Uploader_upload_def)

lemma begin_uploads_raising_chunk:
  "fst (begin_uploads single_pool 7 raising_upload busy_world) = Inl (OtherError ''upload failed'')
   \<and> map fst (attempted (snd (begin_uploads single_pool 7 raising_upload busy_world)))
       = [[PStr ''/rec/1'', PList []], [PStr ''/rec/3'', PList []], [PStr ''/rec/5'', PList []]]"
  by (simp add: begin_uploads_def get_folders_def connect_def busy_world_def busy_store_def
        single_pool_def starmap_def chunksize_of_def get_tasks.simps partial_def invoke_def
        bind_args_def raising_upload_def Let_def)

subsection \<open>The status of a task\<close>

lemma starmapstar_rel:
  assumes refl: "\<And>w. R w w" and trans: "\<And>a b c. R a b \<Longrightarrow> R b c \<Longrightarrow> R a c"
    and step: "\<And>a w. R w (snd (f a w))"
  shows "R w (snd (starmapstar f as w))"
proof (induction as arbitrary: w)
  case Nil
  show ?case by (simp add: refl)
next
  case (Cons a as)
  obtain r w' where fa: "f a w = (r, w')" by (cases "f a w")
  have s: "R w w'" using step [of w a] fa by simp
  show ?case
  proof (cases r)
    case None
    then show ?thesis using fa s Cons.IH [of w'] trans by auto
  next
    case (Some e)
    then show ?thesis using fa s by simp
  qed
qed

lemma run_chunks_rel:
  assumes refl: "\<And>w. R w w" and trans: "\<And>a b c. R a b \<Longrightarrow> R b c \<Longrightarrow> R a c"
    and step: "\<And>a w. R w (snd (f a w))"
  shows "R w (snd (run_chunks f cs w))"
proof (induction cs arbitrary: w)
  case Nil
  show ?case by (simp add: refl)
next
  case (Cons c cs)
  obtain r w' where sc: "starmapstar f c w = (r, w')" by (cases "starmapstar f c w")
  have "R w (snd (starmapstar f c w))"
    by (rule starmapstar_rel [of R, OF refl trans step])
  then have s: "R w w'" using sc by simp
  have "R w' (snd (run_chunks f cs w'))" by (rule Cons.IH)
  with s have "R w (snd (run_chunks f cs w'))" by (rule trans)
  then show ?case using sc by (auto split: prod.splits)
qed

lemma invoke_store_rel:
  assumes refl: "\<And>s. Q s s" and step: "\<And>b s. Q s (snd (body f b s))"
  shows "Q (store w) (store (snd (invoke f pos kw w)))"
proof (cases "bind_args (params f) pos kw")
  case (Inl e)
  then show ?thesis by (simp add: invoke_def Let_def refl)
next
  case (Inr b)
  obtain r s where bd: "body f b (store w) = (r, s)" by (cases "body f b (store w)")
  have "Q (store w) s" using step [of "store w" b] bd by simp
  then show ?thesis using Inr bd by (simp add: invoke_def Let_def)
qed

lemma begin_uploads_store_rel:
  assumes refl: "\<And>s. Q s s" and trans: "\<And>a b c. Q a b \<Longrightarrow> Q b c \<Longrightarrow> Q a c"
    and step: "\<And>b s. Q s (snd (body up_func b s))"
  shows "Q (store w) (store (snd (begin_uploads POOL client up_func w)))"
proof -
  let ?f = "partial up_func [(''client'', PClient client)]"
  let ?R = "\<lambda>a b. Q (store a) (store b)"
  have st: "\<And>a w. ?R w (snd (?f a w))"
    unfolding partial_def by (rule invoke_store_rel [of Q, OF refl step])
  have rc: "\<And>cs w. ?R w (snd (run_chunks ?f cs w))"
  proof -
    fix cs w
    show "?R w (snd (run_chunks ?f cs w))"
      by (rule run_chunks_rel [of ?R]) (auto intro: refl trans st)
  qed
  have sm: "\<And>it. Q (store w) (store (snd (starmap POOL ?f it w)))"
  proof -
    fix it
    let ?w1 = "w\<lparr>submitted := submitted w @ [(pool_id POOL, it)]\<rparr>"
    have "?R ?w1 (snd (run_chunks ?f (get_tasks it (chunksize_of (length it) (processes POOL))) ?w1))"
      by (rule rc)
    then show "Q (store w) (store (snd (starmap POOL ?f it w)))"
      by (auto simp: starmap_def Let_def refl split: prod.splits option.splits)
  qed
  show ?thesis
    by (auto simp: begin_uploads_def Let_def refl sm split: sum.splits)
qed

lemma Uploader_remove_statuses:
  "set (statuses (snd (Uploader_remove folder e))) \<subseteq> set (statuses e)"
  by (auto simp: Uploader_remove_def connect_def rmtree_def statuses_def
           split: option.splits entry.splits)

lemma removing_upload_body:
  "snd (body removing_upload b s) = s \<or>
   (\<exists>folder. snd (body removing_upload b s) = snd (Uploader_remove folder s))"
  by (auto simp: removing_upload_def split: option.splits pyval.splits prod.splits sum.splits)
     (metis snd_conv)+

lemma removing_upload_statuses:
  "\<forall>b s. set (statuses (snd (body removing_upload b s))) \<subseteq> set (statuses s)"
  using removing_upload_body Uploader_remove_statuses by (metis subset_refl)

text \<open>The command \<^verbatim>\<open>CMD_SET_UPLOADING\<close> would change the status of its folder; no
  function of \<^verbatim>\<open>uploader.py\<close> executes it.\<close>

lemma CMD_SET_UPLOADING_flips:
  "map_sum id (statuses \<circ> snd) (execute (CMD_SET_UPLOADING ''/rec/a'') example_store)
     = Inr [(''/rec/a'', ''uploading''), (''/rec/b'', ''uploading'')]"
  by (simp add: example_store_def statuses_def)

text \<open>
  C5. \<^verbatim>\<open>begin_uploads\<close> itself never writes a status: it executes the query
  \<^verbatim>\<open>CMD_GET_FOLDERS\<close> and no other command, so the Task Store changes during a cycle only
  through the bodies of the upload function. With an upload function whose body leaves
  the statuses as they are, the statuses stored after the cycle are those stored before
  it; with one whose body only removes rows, every pair of folder and status stored after
  the cycle was stored before it. This holds however the cycle ends.
\<close>

theorem begin_uploads_keeps_statuses:
  "((\<forall>b s. statuses (snd (body up_func b s)) = statuses s) \<longrightarrow>
      statuses (store (snd (begin_uploads POOL client up_func w))) = statuses (store w))
   \<and> ((\<forall>b s. set (statuses (snd (body up_func b s))) \<subseteq> set (statuses s)) \<longrightarrow>
      set (statuses (store (snd (begin_uploads POOL client up_func w))))
        \<subseteq> set (statuses (store w)))"
proof (intro conjI impI)
  assume h: "\<forall>b s. statuses (snd (body up_func b s)) = statuses s"
  have "(\<lambda>a b. statuses b = statuses a) (store w) (store (snd (begin_uploads POOL client up_func w)))"
    by (rule begin_uploads_store_rel) (simp_all add: h)
  then show "statuses (store (snd (begin_uploads POOL client up_func w))) = statuses (store w)"
    by simp
next
  assume h: "\<forall>b s. set (statuses (snd (body up_func b s))) \<subseteq> set (statuses s)"
  have "(\<lambda>a b. set (statuses b) \<subseteq> set (statuses a)) (store w)
          (store (snd (begin_uploads POOL client up_func w)))"
    by (rule begin_uploads_store_rel) (use h in auto)
  then show "set (statuses (store (snd (begin_uploads POOL client up_func w))))
               \<subseteq> set (statuses (store w))"
    by simp
qed

theorem begin_uploads_keeps_statuses_witness:
  "statuses (store (snd (begin_uploads example_pool 7 quiet_upload example_world)))
     = [(''/rec/a'', ''processed''), (''/rec/b'', ''uploading'')]
   \<and> set (statuses (store (snd (begin_uploads example_pool 7 removing_upload example_world))))
     \<subseteq> {(''/rec/a'', ''processed''), (''/rec/b'', ''uploading'')}"
proof -
  have h1: "\<forall>b s. statuses (snd (body quiet_upload b s)) = statuses s"
    by (simp add: quiet_upload_def)
  have s: "statuses (store example_world)
             = [(''/rec/a'', ''processed''), (''/rec/b'', ''uploading'')]"
    by (simp add: statuses_def example_world_def fresh_world_def example_store_def)
  from begin_uploads_keeps_statuses [of quiet_upload example_pool 7 example_world]
       begin_uploads_keeps_statuses [of removing_upload example_pool 7 example_world]
       h1 removing_upload_statuses s
  show ?thesis by simp
qed

subsection \<open>The arguments of the upload function\<close>

lemma bind_args_client_first:
  assumes "pos \<noteq> []"
  shows "bind_args (''client'' # ps) pos ((''client'', v) # kw)
           = Inl (TypeError ''got multiple values for argument'')"
proof -
  obtain a pos' where "pos = a # pos'" using assms by (cases pos) auto
  then show ?thesis by (simp add: bind_args_def)
qed

lemma bind_args_client_last:
  "bind_args [''folder'', ''share_list'', ''client''] [PStr p, PList s] [(''client'', PClient c)]
     = Inr [(''folder'', PStr p), (''share_list'', PList s), (''client'', PClient c)]"
  by (simp add: bind_args_def)

lemma Uploader_upload_unbound:
  "\<exists>m. bind_args [''client'', ''folder'', ''share_list''] pos [(''client'', v)] = Inl (TypeError m)"
proof (cases pos)
  case Nil
  then show ?thesis by (simp add: bind_args_def)
next
  case (Cons a pos')
  then show ?thesis
    using bind_args_client_first [of pos "[''folder'', ''share_list'']" v "[]"] by simp
qed

lemma invoke_Uploader_upload:
  "store (snd (invoke Uploader_upload pos [(''client'', v)] w)) = store w"
  "applied (snd (invoke Uploader_upload pos [(''client'', v)] w)) = applied w"
proof -
  obtain m where "bind_args [''client'', ''folder'', ''share_list''] pos [(''client'', v)]
                    = Inl (TypeError m)"
    using Uploader_upload_unbound [of pos v] by blast
  then show "store (snd (invoke Uploader_upload pos [(''client'', v)] w)) = store w"
    and "applied (snd (invoke Uploader_upload pos [(''client'', v)] w)) = applied w"
    by (simp_all add: invoke_def Let_def Uploader_upload_def)
qed

lemma run_chunks_first_raises:
  assumes "f a w = (Some e, w1)"
  shows "fst (run_chunks f ((a # c) # cs) w) = Some e"
  using assms by (simp split: prod.splits)

lemma get_tasks_Cons:
  assumes "0 < n"
  shows "get_tasks (a # it) n = (a # take (n - 1) it) # get_tasks (drop (n - 1) it) n"
proof -
  obtain m where "n = Suc m" using assms by (cases n) auto
  then show ?thesis by (subst get_tasks.simps) (simp add: Let_def)
qed

lemma begin_uploads_Uploader_upload:
  fixes client :: 'c and w :: "'c world"
  assumes "connect_fault (store w) = None" and "execute_fault (store w) = None"
    and "filter (\<lambda>t. status t = ''processed'') (tasks (store w)) \<noteq> []"
    and "processes POOL \<noteq> 0"
  shows "fst (begin_uploads POOL client Uploader_upload w)
           = Inl (TypeError ''got multiple values for argument'')"
    and "applied (snd (begin_uploads POOL client Uploader_upload w)) = applied w"
    and "store (snd (begin_uploads POOL client Uploader_upload w)) = store w"
proof -
  let ?kw = "[(''client'', PClient client)]"
  let ?f = "partial Uploader_upload ?kw"
  let ?snap = "filter (\<lambda>t. status t = ''processed'') (tasks (store w))"
  let ?it = "map (\<lambda>task. [row_get task TSK_STORE_INDEX, row_get task TSK_SHR_INDEX :: 'c pyval])
                 ?snap"
  let ?w1 = "w\<lparr>submitted := submitted w @ [(pool_id POOL, ?it)]\<rparr>"
  let ?n = "chunksize_of (length ?it) (processes POOL)"
  obtain t ts where sn: "?snap = t # ts" using assms(3) by (cases ?snap) auto
  then obtain a it' where it: "?it = a # it'" and a: "a = [PStr (store_path t), PList (share_list t)]"
    by simp
  have n: "0 < ?n" using assms(4) it by (simp add: chunksize_of_pos)
  have "bind_args [''client'', ''folder'', ''share_list''] a ?kw
          = Inl (TypeError ''got multiple values for argument'')"
    using bind_args_client_first [of a "[''folder'', ''share_list'']" "PClient client" "[]"] a
    by simp
  then have "fst (?f a ?w1) = Some (TypeError ''got multiple values for argument'')"
    by (simp add: partial_def invoke_def Let_def Uploader_upload_def)
  then obtain w2 where fa: "?f a ?w1 = (Some (TypeError ''got multiple values for argument''), w2)"
    by (cases "?f a ?w1") auto
  have "fst (run_chunks ?f (get_tasks ?it ?n) ?w1) = Some (TypeError ''got multiple values for argument'')"
    unfolding it get_tasks_Cons [OF n [unfolded it]] using fa [unfolded it]
    by (rule run_chunks_first_raises)
  then have "fst (starmap POOL ?f ?it w) = Inl (TypeError ''got multiple values for argument'')"
    using assms(4) by (auto simp: starmap_def Let_def split: prod.splits option.splits)
  then show "fst (begin_uploads POOL client Uploader_upload w)
           = Inl (TypeError ''got multiple values for argument'')"
    using assms(1,2,3) by (simp add: begin_uploads_def get_folders_ok Let_def)
  have "\<And>it. applied (snd (starmap POOL ?f it w)) = applied w"
    by (rule starmap_keeps) (simp_all add: partial_def invoke_Uploader_upload)
  then show "applied (snd (begin_uploads POOL client Uploader_upload w)) = applied w"
    by (simp add: begin_uploads_def Let_def split: sum.splits)
  have "(\<lambda>a b. b = a) (store w) (store (snd (begin_uploads POOL client Uploader_upload w)))"
    by (rule begin_uploads_store_rel) (simp_all add: Uploader_upload_def)
  then show "store (snd (begin_uploads POOL client Uploader_upload w)) = store w" by simp
qed

text \<open>
  C1. In the process of the example, whose Task Store holds the processed folder
  \<^verbatim>\<open>/rec/a\<close> shared with \<^verbatim>\<open>x\<close>, a cycle with the upload function declared in
  \<^verbatim>\<open>uploader.py\<close>, \<^verbatim>\<open>_upload(client, folder, share_list)\<close>, submits the tuple of the
  folder and calls the function with the positional arguments \<^verbatim>\<open>/rec/a\<close> and
  \<^verbatim>\<open>[x]\<close> and the keyword argument \<^verbatim>\<open>client\<close>. The path takes the parameter
  \<^verbatim>\<open>client\<close>, the keyword names it again, and the call raises a \<^verbatim>\<open>TypeError\<close> before
  the body runs: nothing is bound, and \<^verbatim>\<open>begin_uploads\<close> raises the exception.
\<close>

theorem begin_uploads_declared_upload_raises:
  "begin_uploads example_pool 7 Uploader_upload example_world =
     (Inl (TypeError ''got multiple values for argument''),
      example_world\<lparr>submitted := [(0, [[PStr ''/rec/a'', PList [''x'']]])],
                    attempted := [([PStr ''/rec/a'', PList [''x'']], [(''client'', PClient 7)])]\<rparr>)
   \<and> applied (snd (begin_uploads example_pool 7 Uploader_upload example_world)) = []"
  by (simp add: begin_uploads_def get_folders_def connect_def example_world_def fresh_world_def
        example_store_def example_pool_def starmap_def chunksize_of_def get_tasks.simps
        partial_def invoke_def bind_args_def Uploader_upload_def Let_def)

end
